theory Spec2Isabelle
  imports Main
begin

section \<open>The WebSocketPoller custom element and the browser that drives it\<close>

text \<open>
  The source is one class, \<^verbatim>\<open>WebSocketPoller\<close> in
  \<^verbatim>\<open>demo/ui/components/websocket_poller.js\<close>. Its methods run as callbacks of
  the browser's single event loop, so the model is a world record (the element's
  fields together with what the browser keeps for it: sockets, timers, the clock, the
  page location), one function per method or arrow function of the class, and a
  \<open>step\<close> function that plays the browser: it picks the callback an event calls,
  runs it and reports what it throws.
\<close>

subsection \<open>Data\<close>

datatype ready_state = CONNECTING | OPEN | CLOSING | CLOSED

datatype js_error = SyntaxError

text \<open>
  The two arrow functions that \<^verbatim>\<open>connectWebSocket\<close> stores in the socket:
  \<open>ForwardMessage\<close> is \<^verbatim>\<open>(event) => {JSON.parse ...; this.dispatchEvent(...)}\<close>,
  \<open>ScheduleReconnect\<close> is \<^verbatim>\<open>() => {setTimeout(() => this.connectWebSocket(), 1000)}\<close>.
  Both close over the element, not over the socket they are stored in.
\<close>

datatype callback = ForwardMessage | ScheduleReconnect

record socket =
  url :: string
  readyState :: ready_state
  onmessage :: "callback option"
  onclose :: "callback option"

record location =
  protocol :: string
  host :: string

text \<open>\<^verbatim>\<open>new MesopEvent(this.triggerEvent, {action: data})\<close>.\<close>

record 'j mesop_event =
  tag :: string
  detail_action :: 'j

text \<open>
  The element: the two declared properties and the field \<^verbatim>\<open>ws\<close>. A socket
  reference is the socket's index in the browser's list of sockets; \<open>None\<close> is
  \<^verbatim>\<open>null\<close>.
\<close>

record 'j component =
  triggerEvent :: string
  action :: "'j option"
  ws :: "nat option"

text \<open>
  \<open>timers\<close> holds the due time of every pending \<^verbatim>\<open>setTimeout\<close>; the class
  arms timers with one callback only, \<^verbatim>\<open>() => this.connectWebSocket()\<close>.
  \<open>dispatched\<close> is the sequence of events passed to \<^verbatim>\<open>dispatchEvent\<close>,
  \<open>reported\<close> the exceptions that left a callback and were reported by the browser.
  Times are in milliseconds.
\<close>

record 'j world =
  elem :: "'j component"
  window_location :: location
  sockets :: "socket list"
  timers :: "nat list"
  now :: nat
  dispatched :: "'j mesop_event list"
  reported :: "js_error list"

subsection \<open>Platform operations used by the class\<close>

definition url_scheme :: "string \<Rightarrow> string" where
  "url_scheme u = takeWhile (\<lambda>c. c \<noteq> CHR '':'') u"

text \<open>
  The \<^verbatim>\<open>WebSocket\<close> constructor throws a \<^verbatim>\<open>SyntaxError\<close> for a URL whose scheme
  it does not accept, and otherwise returns at once with a socket in state
  \<open>CONNECTING\<close>; whether the connection can be made is found out later. The
  host part comes from \<^verbatim>\<open>window.location.host\<close>, the serialisation of the host the
  page was loaded from, and is taken as it is.
\<close>

definition new_WebSocket :: "string \<Rightarrow> js_error + socket" where
  "new_WebSocket u =
     (if url_scheme u = ''ws'' \<or> url_scheme u = ''wss''
      then Inr \<lparr>url = u, readyState = CONNECTING, onmessage = None, onclose = None\<rparr>
      else Inl SyntaxError)"

text \<open>
  \<^verbatim>\<open>close()\<close> without arguments: nothing on a socket that is closing or closed,
  otherwise the socket starts closing. The close event comes later, from the browser.
\<close>

definition ws_close :: "socket \<Rightarrow> socket" where
  "ws_close s =
     (if readyState s = CLOSING \<or> readyState s = CLOSED then s
      else s\<lparr>readyState := CLOSING\<rparr>)"

definition setTimeout :: "nat \<Rightarrow> 'j world \<Rightarrow> 'j world" where
  "setTimeout delay w = w\<lparr>timers := timers w @ [now w + delay]\<rparr>"

definition dispatchEvent :: "'j mesop_event \<Rightarrow> 'j world \<Rightarrow> 'j world" where
  "dispatchEvent e w = w\<lparr>dispatched := dispatched w @ [e]\<rparr>"

subsection \<open>The class\<close>

text \<open>
  The constructor sets \<^verbatim>\<open>ws\<close> to \<^verbatim>\<open>null\<close>; the host page gives the two
  properties their values.
\<close>

definition constructor :: "string \<Rightarrow> 'j option \<Rightarrow> 'j component" where
  "constructor te ac = \<lparr>triggerEvent = te, action = ac, ws = None\<rparr>"

definition wsProtocol :: "location \<Rightarrow> string" where
  "wsProtocol loc = (if protocol loc = ''https:'' then ''wss:'' else ''ws:'')"

definition wsUrl :: "location \<Rightarrow> string" where
  "wsUrl loc = wsProtocol loc @ ''//'' @ host loc @ ''/__ws__''"

definition connectWebSocket :: "'j world \<Rightarrow> js_error + 'j world" where
  "connectWebSocket w =
     (case new_WebSocket (wsUrl (window_location w)) of
        Inl e \<Rightarrow> Inl e
      | Inr s \<Rightarrow>
          Inr (w\<lparr>elem := (elem w)\<lparr>ws := Some (length (sockets w))\<rparr>,
                 sockets := sockets w @
                   [s\<lparr>onmessage := Some ForwardMessage,
                      onclose := Some ScheduleReconnect\<rparr>]\<rparr>))"

text \<open>
  The two lifecycle callbacks first call the method of the same name of the base class
  \<^verbatim>\<open>LitElement\<close>, which touches none of the fields modelled here and is left out.
  In \<^verbatim>\<open>disconnectedCallback\<close> the reference in \<^verbatim>\<open>ws\<close> is to a socket that
  exists, since only \<^verbatim>\<open>connectWebSocket\<close> writes the field; the test of the index
  against the length of the list is there to keep the read inside the list.
\<close>

definition connectedCallback :: "'j world \<Rightarrow> js_error + 'j world" where
  "connectedCallback w = connectWebSocket w"

definition disconnectedCallback :: "'j world \<Rightarrow> js_error + 'j world" where
  "disconnectedCallback w =
     (case ws (elem w) of
        None \<Rightarrow> Inr w
      | Some h \<Rightarrow>
          if h < length (sockets w)
          then Inr (w\<lparr>sockets := (sockets w)[h := ws_close (sockets w ! h)]\<rparr>)
          else Inr w)"

text \<open>
  The message handler. \<open>JSON_parse\<close> is the platform's \<^verbatim>\<open>JSON.parse\<close>:
  \<open>None\<close> where it throws its \<^verbatim>\<open>SyntaxError\<close>. The handler has no
  \<^verbatim>\<open>try\<close>, so the exception leaves it.
\<close>

definition onmessage_handler ::
  "(string \<Rightarrow> 'j option) \<Rightarrow> string \<Rightarrow> 'j world \<Rightarrow> js_error + 'j world" where
  "onmessage_handler JSON_parse event_data w =
     (case JSON_parse event_data of
        None \<Rightarrow> Inl SyntaxError
      | Some data \<Rightarrow>
          Inr (dispatchEvent
                 \<lparr>tag = triggerEvent (elem w), detail_action = data\<rparr> w))"

definition onclose_handler :: "'j world \<Rightarrow> js_error + 'j world" where
  "onclose_handler w = Inr (setTimeout 1000 w)"

fun invoke ::
  "(string \<Rightarrow> 'j option) \<Rightarrow> callback \<Rightarrow> string \<Rightarrow> 'j world \<Rightarrow> js_error + 'j world" where
  "invoke JSON_parse ForwardMessage event_data w = onmessage_handler JSON_parse event_data w"
| "invoke JSON_parse ScheduleReconnect event_data w = onclose_handler w"

subsection \<open>The event loop\<close>

text \<open>
  What can happen to the element: the host connects it to the document or removes it
  from it; a socket finishes its handshake, receives a text frame, or closes (a
  refused connection, a dropped network, the server's close and the end of the closing
  handshake started by \<^verbatim>\<open>close()\<close> all end in the same close event); time passes;
  the browser runs the oldest timer, when it is due.
\<close>

datatype event =
    Mount
  | Unmount
  | SockOpen nat
  | SockMessage nat string
  | SockClose nat
  | Tick nat
  | Timeout

text \<open>
  An exception that leaves a callback is reported and the event loop goes on. Each
  callback of the class throws, if at all, before it has changed anything, so the world
  after a throw is the world in which the callback was called.
\<close>

definition run_callback :: "'j world \<Rightarrow> js_error + 'j world \<Rightarrow> 'j world" where
  "run_callback w r =
     (case r of
        Inl e \<Rightarrow> w\<lparr>reported := reported w @ [e]\<rparr>
      | Inr w' \<Rightarrow> w')"

definition set_readyState :: "nat \<Rightarrow> ready_state \<Rightarrow> 'j world \<Rightarrow> 'j world" where
  "set_readyState h r w = w\<lparr>sockets := (sockets w)[h := (sockets w ! h)\<lparr>readyState := r\<rparr>]\<rparr>"

fun step :: "(string \<Rightarrow> 'j option) \<Rightarrow> event \<Rightarrow> 'j world \<Rightarrow> 'j world" where
  "step JSON_parse Mount w = run_callback w (connectedCallback w)"
| "step JSON_parse Unmount w = run_callback w (disconnectedCallback w)"
| "step JSON_parse (SockOpen h) w =
     (if h < length (sockets w) \<and> readyState (sockets w ! h) = CONNECTING
      then set_readyState h OPEN w else w)"
| "step JSON_parse (SockMessage h event_data) w =
     (if h < length (sockets w) \<and> readyState (sockets w ! h) = OPEN
      then (case onmessage (sockets w ! h) of
              None \<Rightarrow> w
            | Some cb \<Rightarrow> run_callback w (invoke JSON_parse cb event_data w))
      else w)"
| "step JSON_parse (SockClose h) w =
     (if h < length (sockets w) \<and> readyState (sockets w ! h) \<noteq> CLOSED
      then (let w1 = set_readyState h CLOSED w in
            case onclose (sockets w1 ! h) of
              None \<Rightarrow> w1
            | Some cb \<Rightarrow> run_callback w1 (invoke JSON_parse cb [] w1))
      else w)"
| "step JSON_parse (Tick d) w = w\<lparr>now := now w + d\<rparr>"
| "step JSON_parse Timeout w =
     (case timers w of
        [] \<Rightarrow> w
      | due # rest \<Rightarrow>
          if due \<le> now w
          then (let w1 = w\<lparr>timers := rest\<rparr> in run_callback w1 (connectWebSocket w1))
          else w)"

fun run :: "(string \<Rightarrow> 'j option) \<Rightarrow> event list \<Rightarrow> 'j world \<Rightarrow> 'j world" where
  "run JSON_parse [] w = w"
| "run JSON_parse (e # es) w = run JSON_parse es (step JSON_parse e w)"

text \<open>A page with a freshly constructed element, not yet connected to the document.\<close>

definition fresh :: "string \<Rightarrow> 'j option \<Rightarrow> location \<Rightarrow> 'j world" where
  "fresh te ac loc =
     \<lparr>elem = constructor te ac, window_location = loc, sockets = [], timers = [],
      now = 0, dispatched = [], reported = []\<rparr>"

subsection \<open>Observations\<close>

text \<open>Every connection attempt adds one socket, and nothing else does.\<close>

definition attempts :: "'j world \<Rightarrow> nat" where
  "attempts w = length (sockets w)"

definition live :: "'j world \<Rightarrow> nat" where
  "live w = length (filter (\<lambda>s. readyState s \<noteq> CLOSED) (sockets w))"


text \<open>The world after a connection attempt that did not throw.\<close>

definition connected :: "'j world \<Rightarrow> 'j world" where
  "connected w =
     w\<lparr>elem := (elem w)\<lparr>ws := Some (length (sockets w))\<rparr>,
       sockets := sockets w @
         [\<lparr>url = wsUrl (window_location w), readyState = CONNECTING,
           onmessage = Some ForwardMessage, onclose = Some ScheduleReconnect\<rparr>]\<rparr>"

text \<open>
  The state of an element that was connected to the document once: the sockets that are
  not closed and the pending timers are one in all, a socket that is not closed is the
  one in \<^verbatim>\<open>this.ws\<close>, and every socket carries the two handlers.
\<close>

definition one_channel :: "'j world \<Rightarrow> bool" where
  "one_channel w \<longleftrightarrow>
     live w + length (timers w) = 1 \<and>
     (\<forall>i < length (sockets w).
        (readyState (sockets w ! i) \<noteq> CLOSED \<longrightarrow> ws (elem w) = Some i) \<and>
        onmessage (sockets w ! i) = Some ForwardMessage \<and>
        onclose (sockets w ! i) = Some ScheduleReconnect)"

text \<open>
  The endpoint in the words of the specification: \<^verbatim>\<open>{ws|wss}://<host>/__ws__\<close>,
  the secure scheme for a secure page.
\<close>

definition spec_endpoint :: "location \<Rightarrow> string" where
  "spec_endpoint loc =
     (if protocol loc = ''https:'' then ''wss'' else ''ws'') @ ''://'' @ host loc @ ''/__ws__''"

text \<open>
  An endpoint that cannot be reached: attempt number \<open>k\<close> fails, a second passes, the
  timer fires.
\<close>

definition retry_round :: "nat \<Rightarrow> event list" where
  "retry_round k = [SockClose k, Tick 1000, Timeout]"

fun retries :: "nat \<Rightarrow> event list" where
  "retries 0 = []"
| "retries (Suc n) = retries n @ retry_round n"

text \<open>
  A stand-in for \<^verbatim>\<open>JSON.parse\<close> on the two frames of the specification's scenario,
  for running the model on concrete input: the text of the ping object decodes, every
  other text is rejected.
\<close>

definition scenario_parse :: "string \<Rightarrow> string option" where
  "scenario_parse s = (if s = ''{\"type\":\"ping\"}'' then Some ''ping'' else None)"

definition example_page :: location where
  "example_page = \<lparr>protocol = ''https:'', host = ''example.test''\<rparr>"

text \<open>The socket of a connection attempt made from a page at \<open>loc\<close>, in state \<open>r\<close>.\<close>

definition attempt_socket :: "location \<Rightarrow> ready_state \<Rightarrow> socket" where
  "attempt_socket loc r =
     \<lparr>url = wsUrl loc, readyState = r,
      onmessage = Some ForwardMessage, onclose = Some ScheduleReconnect\<rparr>"


section \<open>Facts about the model\<close>

subsection \<open>The callbacks as plain updates\<close>

lemma url_scheme_wsUrl:
  "url_scheme (wsUrl loc) = (if protocol loc = ''https:'' then ''wss'' else ''ws'')"
  by (simp add: url_scheme_def wsUrl_def wsProtocol_def)

lemma connectWebSocket_connected: "connectWebSocket w = Inr (connected w)"
  by (simp add: connectWebSocket_def new_WebSocket_def url_scheme_wsUrl connected_def)

lemma step_Mount: "step P Mount w = connected w"
  by (simp add: connectedCallback_def connectWebSocket_connected run_callback_def)

lemma step_Timeout_due:
  "timers w = due # rest \<Longrightarrow> due \<le> now w \<Longrightarrow>
   step P Timeout w = connected (w\<lparr>timers := rest\<rparr>)"
  by (simp add: connectWebSocket_connected run_callback_def)

lemma step_Timeout_early:
  "timers w = due # rest \<Longrightarrow> now w < due \<Longrightarrow> step P Timeout w = w"
  by simp

lemma step_SockClose_live:
  "h < length (sockets w) \<Longrightarrow> readyState (sockets w ! h) \<noteq> CLOSED \<Longrightarrow>
   onclose (sockets w ! h) = Some ScheduleReconnect \<Longrightarrow>
   step P (SockClose h) w = setTimeout 1000 (set_readyState h CLOSED w)"
  by (simp add: set_readyState_def onclose_handler_def run_callback_def Let_def)

lemma filter_update_count:
  "i < length xs \<Longrightarrow>
   length (filter P (xs[i := y])) + (if P (xs ! i) then 1 else 0) =
   length (filter P xs) + (if P y then 1 else 0)"
proof (induction xs arbitrary: i)
  case Nil
  then show ?case by simp
next
  case (Cons x xs)
  then show ?case by (cases i) auto
qed

lemma live_set_readyState:
  "h < length (sockets w) \<Longrightarrow>
   live (set_readyState h r w) + (if readyState (sockets w ! h) \<noteq> CLOSED then 1 else 0) =
   live w + (if r \<noteq> CLOSED then 1 else 0)"
  using filter_update_count [of h "sockets w" "\<lambda>s. readyState s \<noteq> CLOSED"
      "(sockets w ! h)\<lparr>readyState := r\<rparr>"]
  by (simp add: live_def set_readyState_def)

lemma live_connected: "live (connected w) = Suc (live w)"
  by (simp add: live_def connected_def)

lemma live_zero_all_closed:
  "live w = 0 \<Longrightarrow> i < length (sockets w) \<Longrightarrow> readyState (sockets w ! i) = CLOSED"
  by (auto simp: live_def filter_empty_conv)


lemma one_channel_connected_fresh: "one_channel (step P Mount (fresh te ac loc))"
  by (simp add: step_Mount one_channel_def live_def connected_def fresh_def del: step.simps)

lemma one_channel_relabel:
  assumes inv: "one_channel w"
    and h: "h < length (sockets w)"
    and old: "readyState (sockets w ! h) \<noteq> CLOSED"
    and new: "r \<noteq> CLOSED"
  shows "one_channel (set_readyState h r w)"
proof -
  let ?w = "set_readyState h r w"
  have "live ?w = live w"
    using live_set_readyState [OF h, of r] old new by simp
  moreover have "timers ?w = timers w" and "elem ?w = elem w"
    and "length (sockets ?w) = length (sockets w)"
    by (simp_all add: set_readyState_def)
  moreover have "\<And>i. i < length (sockets w) \<Longrightarrow>
      (readyState (sockets ?w ! i) \<noteq> CLOSED) = (readyState (sockets w ! i) \<noteq> CLOSED) \<and>
      onmessage (sockets ?w ! i) = onmessage (sockets w ! i) \<and>
      onclose (sockets ?w ! i) = onclose (sockets w ! i)"
    using h old new by (auto simp: set_readyState_def nth_list_update)
  ultimately show ?thesis
    using inv unfolding one_channel_def by simp
qed

lemma step_Unmount_cases:
  "step P Unmount w = w \<or>
   (\<exists>h. h < length (sockets w) \<and> readyState (sockets w ! h) \<noteq> CLOSED \<and>
        step P Unmount w = set_readyState h CLOSING w)"
proof (cases "ws (elem w)")
  case None
  then show ?thesis by (simp add: disconnectedCallback_def run_callback_def)
next
  case (Some h)
  show ?thesis
  proof (cases "h < length (sockets w) \<and> readyState (sockets w ! h) \<noteq> CLOSING
      \<and> readyState (sockets w ! h) \<noteq> CLOSED")
    case True
    then have "step P Unmount w = set_readyState h CLOSING w"
      using Some
      by (simp add: disconnectedCallback_def run_callback_def set_readyState_def ws_close_def)
    then show ?thesis using True by blast
  next
    case False
    then have "step P Unmount w = w"
      using Some
      by (auto simp: disconnectedCallback_def run_callback_def ws_close_def)
    then show ?thesis by simp
  qed
qed

lemma one_channel_Unmount: "one_channel w \<Longrightarrow> one_channel (step P Unmount w)"
  using step_Unmount_cases [of P w] one_channel_relabel [of w _ CLOSING] by auto

lemma one_channel_SockOpen: "one_channel w \<Longrightarrow> one_channel (step P (SockOpen h) w)"
  using one_channel_relabel [of w h OPEN] by simp

lemma one_channel_SockMessage:
  assumes inv: "one_channel w"
  shows "one_channel (step P (SockMessage h d) w)"
proof (cases "h < length (sockets w) \<and> readyState (sockets w ! h) = OPEN")
  case False
  then show ?thesis using inv by auto
next
  case True
  then have cb: "onmessage (sockets w ! h) = Some ForwardMessage"
    using inv by (simp add: one_channel_def)
  let ?w = "step P (SockMessage h d) w"
  have "sockets ?w = sockets w" and "timers ?w = timers w" and "elem ?w = elem w"
    using True cb
    by (simp_all add: run_callback_def onmessage_handler_def dispatchEvent_def
        split: option.splits)
  then show ?thesis
    using inv by (simp add: one_channel_def live_def del: step.simps)
qed

lemma one_channel_SockClose:
  assumes inv: "one_channel w"
  shows "one_channel (step P (SockClose h) w)"
proof (cases "h < length (sockets w) \<and> readyState (sockets w ! h) \<noteq> CLOSED")
  case False
  then show ?thesis using inv by auto
next
  case True
  then have h: "h < length (sockets w)" and old: "readyState (sockets w ! h) \<noteq> CLOSED"
    by simp_all
  have cb: "onclose (sockets w ! h) = Some ScheduleReconnect"
    using inv h by (simp add: one_channel_def)
  let ?w = "setTimeout 1000 (set_readyState h CLOSED w)"
  have eq: "step P (SockClose h) w = ?w"
    using step_SockClose_live [OF h old cb] .
  have "Suc (live ?w) = live w"
    using live_set_readyState [OF h, of CLOSED] old
    by (simp add: setTimeout_def live_def set_readyState_def)
  moreover have "length (timers ?w) = Suc (length (timers w))"
    by (simp add: setTimeout_def set_readyState_def)
  moreover have "live w + length (timers w) = 1"
    using inv by (simp add: one_channel_def)
  ultimately have count: "live ?w + length (timers ?w) = 1"
    by linarith
  have same: "elem ?w = elem w" "length (sockets ?w) = length (sockets w)"
    by (simp_all add: setTimeout_def set_readyState_def)
  have each: "\<And>i. i < length (sockets w) \<Longrightarrow>
      (readyState (sockets ?w ! i) \<noteq> CLOSED \<longrightarrow> readyState (sockets w ! i) \<noteq> CLOSED) \<and>
      onmessage (sockets ?w ! i) = onmessage (sockets w ! i) \<and>
      onclose (sockets ?w ! i) = onclose (sockets w ! i)"
    using h by (auto simp: setTimeout_def set_readyState_def nth_list_update)
  have "\<forall>i < length (sockets ?w).
      (readyState (sockets ?w ! i) \<noteq> CLOSED \<longrightarrow> ws (elem ?w) = Some i) \<and>
      onmessage (sockets ?w ! i) = Some ForwardMessage \<and>
      onclose (sockets ?w ! i) = Some ScheduleReconnect"
  proof (intro allI impI)
    fix i
    assume "i < length (sockets ?w)"
    then have i: "i < length (sockets w)" using same by simp
    from inv i have
      "readyState (sockets w ! i) \<noteq> CLOSED \<longrightarrow> ws (elem w) = Some i"
      "onmessage (sockets w ! i) = Some ForwardMessage"
      "onclose (sockets w ! i) = Some ScheduleReconnect"
      by (simp_all add: one_channel_def)
    with each [OF i] same
    show "(readyState (sockets ?w ! i) \<noteq> CLOSED \<longrightarrow> ws (elem ?w) = Some i) \<and>
      onmessage (sockets ?w ! i) = Some ForwardMessage \<and>
      onclose (sockets ?w ! i) = Some ScheduleReconnect"
      by simp
  qed
  with count show ?thesis
    unfolding eq one_channel_def by blast
qed

lemma one_channel_Timeout:
  assumes inv: "one_channel w"
  shows "one_channel (step P Timeout w)"
proof (cases "timers w")
  case Nil
  then show ?thesis using inv by simp
next
  case (Cons due rest)
  show ?thesis
  proof (cases "due \<le> now w")
    case False
    then show ?thesis using inv Cons by simp
  next
    case True
    have rest: "rest = []" and dead: "live w = 0"
      using inv Cons by (simp_all add: one_channel_def)
    let ?w = "connected (w\<lparr>timers := []\<rparr>)"
    have eq: "step P Timeout w = ?w"
      using step_Timeout_due [OF Cons True] rest by simp
    have closed: "\<And>i. i < length (sockets w) \<Longrightarrow> readyState (sockets w ! i) = CLOSED"
      using live_zero_all_closed [OF dead] .
    have "live ?w = 1"
      using dead by (simp add: live_def connected_def)
    moreover have "timers ?w = []"
      by (simp add: connected_def)
    moreover have "\<And>i. i < length (sockets ?w) \<Longrightarrow>
        (readyState (sockets ?w ! i) \<noteq> CLOSED \<longrightarrow> ws (elem ?w) = Some i) \<and>
        onmessage (sockets ?w ! i) = Some ForwardMessage \<and>
        onclose (sockets ?w ! i) = Some ScheduleReconnect"
      using inv closed
      by (auto simp: connected_def nth_append one_channel_def less_Suc_eq)
    ultimately show ?thesis
      unfolding eq one_channel_def by simp
  qed
qed

lemma one_channel_Tick: "one_channel w \<Longrightarrow> one_channel (step P (Tick d) w)"
  by (simp add: one_channel_def live_def)

lemma one_channel_step:
  "ev \<noteq> Mount \<Longrightarrow> one_channel w \<Longrightarrow> one_channel (step P ev w)"
proof (cases ev)
  case Mount
  assume "ev \<noteq> Mount"
  with Mount show ?thesis by simp
qed (simp_all only: one_channel_Unmount one_channel_SockOpen one_channel_SockMessage
    one_channel_SockClose one_channel_Timeout one_channel_Tick)

lemma one_channel_run:
  "Mount \<notin> set evs \<Longrightarrow> one_channel w \<Longrightarrow> one_channel (run P evs w)"
proof (induction evs arbitrary: w)
  case Nil
  then show ?case by simp
next
  case (Cons ev evs)
  from Cons.prems have rest: "Mount \<notin> set evs" and ev: "ev \<noteq> Mount" by auto
  have "one_channel (step P ev w)"
    using ev Cons.prems(2) by (rule one_channel_step)
  with rest show ?case using Cons.IH by (simp del: step.simps)
qed

subsection \<open>Runs\<close>

lemma run_append: "run P (xs @ ys) w = run P ys (run P xs w)"
  by (induction xs arbitrary: w) (simp_all del: step.simps)

lemma attempts_step:
  "ev \<noteq> Mount \<Longrightarrow> one_channel w \<Longrightarrow> attempts (step P ev w) \<noteq> attempts w \<Longrightarrow>
   timers w \<noteq> []"
proof (cases ev)
  case Unmount
  assume "attempts (step P ev w) \<noteq> attempts w"
  then show ?thesis using Unmount step_Unmount_cases [of P w]
    by (auto simp: attempts_def set_readyState_def simp del: step.simps)
next
  case (SockMessage h d)
  assume "one_channel w" "attempts (step P ev w) \<noteq> attempts w"
  then show ?thesis using SockMessage
    by (auto simp: attempts_def one_channel_def run_callback_def onmessage_handler_def
        dispatchEvent_def split: option.splits if_splits)
next
  case (SockClose h)
  assume "one_channel w" "attempts (step P ev w) \<noteq> attempts w"
  then show ?thesis using SockClose
    by (auto simp: attempts_def one_channel_def run_callback_def onclose_handler_def
        setTimeout_def set_readyState_def Let_def split: option.splits if_splits)
qed (auto simp: attempts_def set_readyState_def split: if_splits)

lemma invoke_keeps_elem: "elem (run_callback w (invoke P cb d w)) = elem w"
  by (cases cb)
     (simp_all add: run_callback_def onmessage_handler_def onclose_handler_def
      dispatchEvent_def setTimeout_def split: option.splits)

lemma step_SockMessage_open:
  "h < length (sockets w) \<Longrightarrow> readyState (sockets w ! h) = OPEN \<Longrightarrow>
   onmessage (sockets w ! h) = Some ForwardMessage \<Longrightarrow>
   step P (SockMessage h raw) w = run_callback w (onmessage_handler P raw w)"
  by simp

lemma wsUrl_spec_endpoint: "wsUrl loc = spec_endpoint loc"
  by (simp add: wsUrl_def wsProtocol_def spec_endpoint_def)

subsection \<open>An endpoint that never answers\<close>

lemma replicate_snoc_update: "(replicate n c @ [x])[n := y] = replicate n c @ [y]"
  by (simp add: list_update_append)

lemma replicate_snoc_nth: "(replicate n c @ [x]) ! n = x"
  by (simp add: nth_append)

lemma retry_round_run:
  assumes "w = \<lparr>elem = \<lparr>triggerEvent = te, action = ac, ws = Some n\<rparr>, window_location = loc,
        sockets = replicate n (attempt_socket loc CLOSED) @ [attempt_socket loc CONNECTING],
        timers = [], now = 1000 * n, dispatched = [], reported = []\<rparr>"
  shows "run P (retry_round n) w =
      \<lparr>elem = \<lparr>triggerEvent = te, action = ac, ws = Some (Suc n)\<rparr>, window_location = loc,
        sockets = replicate (Suc n) (attempt_socket loc CLOSED) @ [attempt_socket loc CONNECTING],
        timers = [], now = 1000 * Suc n, dispatched = [], reported = []\<rparr>"
proof -
  have h: "n < length (sockets w)" and st: "readyState (sockets w ! n) \<noteq> CLOSED"
    and cb: "onclose (sockets w ! n) = Some ScheduleReconnect"
    by (simp_all add: assms replicate_snoc_nth attempt_socket_def)
  have 1: "step P (SockClose n) w =
      w\<lparr>sockets := replicate (Suc n) (attempt_socket loc CLOSED), timers := [1000 * n + 1000]\<rparr>"
    unfolding step_SockClose_live [OF h st cb]
    by (simp add: assms setTimeout_def set_readyState_def attempt_socket_def
        replicate_snoc_update replicate_snoc_nth replicate_append_same)
  have 2: "step P (Tick 1000) (step P (SockClose n) w) =
      w\<lparr>sockets := replicate (Suc n) (attempt_socket loc CLOSED), timers := [1000 * n + 1000],
        now := 1000 * n + 1000\<rparr>"
    unfolding 1 by (simp add: assms)
  have 3: "step P Timeout (step P (Tick 1000) (step P (SockClose n) w)) =
      connected (w\<lparr>sockets := replicate (Suc n) (attempt_socket loc CLOSED), timers := [],
        now := 1000 * n + 1000\<rparr>)"
    unfolding 2 by (subst step_Timeout_due [of _ "1000 * n + 1000" "[]"]) (simp_all add: assms)
  show ?thesis
    unfolding retry_round_def run.simps 3
    by (simp add: assms connected_def attempt_socket_def)
qed

lemma retries_run:
  "run P (retries n) (step P Mount (fresh te ac loc)) =
     \<lparr>elem = \<lparr>triggerEvent = te, action = ac, ws = Some n\<rparr>, window_location = loc,
      sockets = replicate n (attempt_socket loc CLOSED) @ [attempt_socket loc CONNECTING],
      timers = [], now = 1000 * n, dispatched = [], reported = []\<rparr>"
proof (induction n)
  case 0
  show ?case
    by (simp add: step_Mount connected_def fresh_def constructor_def attempt_socket_def
        del: step.simps)
next
  case (Suc n)
  show ?case
    unfolding retries.simps run_append Suc.IH
    by (rule retry_round_run) simp
qed

subsection \<open>From a close event to the next attempt\<close>

lemma live_socket_no_timer:
  assumes "one_channel w" and "h < length (sockets w)"
    and "readyState (sockets w ! h) \<noteq> CLOSED"
  shows "timers w = []" and "onclose (sockets w ! h) = Some ScheduleReconnect"
proof -
  have "live w \<noteq> 0"
    using live_zero_all_closed [of w h] assms(2,3) by blast
  moreover have "live w + length (timers w) = 1"
    using assms(1) by (simp add: one_channel_def)
  ultimately have "length (timers w) = 0" by linarith
  then show "timers w = []" by simp
  show "onclose (sockets w ! h) = Some ScheduleReconnect"
    using assms(1,2) by (simp add: one_channel_def)
qed

lemma close_tick_timeout_late:
  assumes "h < length (sockets w)" and "readyState (sockets w ! h) \<noteq> CLOSED"
    and "onclose (sockets w ! h) = Some ScheduleReconnect"
    and "timers w = []" and "1000 \<le> d"
  shows "run P [SockClose h, Tick d, Timeout] w =
           connected ((set_readyState h CLOSED w)\<lparr>now := now w + d, timers := []\<rparr>)"
proof -
  let ?w1 = "step P (SockClose h) w"
  have eq: "?w1 = setTimeout 1000 (set_readyState h CLOSED w)"
    using assms(1-3) by (rule step_SockClose_live)
  have 2: "step P (Tick d) ?w1 =
      (set_readyState h CLOSED w)\<lparr>timers := [now w + 1000], now := now w + d\<rparr>"
    unfolding eq using assms(4) by (simp add: setTimeout_def set_readyState_def)
  have 3: "step P Timeout (step P (Tick d) ?w1) =
      connected ((step P (Tick d) ?w1)\<lparr>timers := []\<rparr>)"
    unfolding 2 using assms(5)
    by (intro step_Timeout_due [of _ "now w + 1000" "[]"]) simp_all
  show ?thesis
    unfolding run.simps 3 unfolding 2 by simp
qed

lemma close_tick_timeout_early:
  assumes "h < length (sockets w)" and "readyState (sockets w ! h) \<noteq> CLOSED"
    and "onclose (sockets w ! h) = Some ScheduleReconnect"
    and "timers w = []" and "d < 1000"
  shows "run P [SockClose h, Tick d, Timeout] w =
           (set_readyState h CLOSED w)\<lparr>timers := [now w + 1000], now := now w + d\<rparr>"
proof -
  let ?w1 = "step P (SockClose h) w"
  have eq: "?w1 = setTimeout 1000 (set_readyState h CLOSED w)"
    using assms(1-3) by (rule step_SockClose_live)
  have 2: "step P (Tick d) ?w1 =
      (set_readyState h CLOSED w)\<lparr>timers := [now w + 1000], now := now w + d\<rparr>"
    unfolding eq using assms(4) by (simp add: setTimeout_def set_readyState_def)
  have 3: "step P Timeout (step P (Tick d) ?w1) = step P (Tick d) ?w1"
    unfolding 2 using assms(5)
    by (intro step_Timeout_early [of _ "now w + 1000" "[]"]) simp_all
  show ?thesis
    unfolding run.simps 3 unfolding 2 by simp
qed

lemma close_tick_timeout_attempts:
  assumes "h < length (sockets w)" and "readyState (sockets w ! h) \<noteq> CLOSED"
    and "onclose (sockets w ! h) = Some ScheduleReconnect"
    and "timers w = []"
  shows "attempts (run P [SockClose h, Tick d, Timeout] w) =
           (if d < 1000 then attempts w else Suc (attempts w))"
proof (cases "d < 1000")
  case True
  show ?thesis
    unfolding close_tick_timeout_early [OF assms True]
    using True by (simp add: attempts_def set_readyState_def)
next
  case False
  then have "1000 \<le> d" by simp
  show ?thesis
    unfolding close_tick_timeout_late [OF assms \<open>1000 \<le> d\<close>]
    using False by (simp add: attempts_def connected_def set_readyState_def)
qed







lemma run_snoc3: "run P (evs @ [a, b, c]) w = run P [a, b, c] (run P evs w)"
  by (rule run_append)

subsection \<open>Unfolding the model on concrete input\<close>

lemmas eval_defs = fresh_def constructor_def example_page_def scenario_parse_def
  connectedCallback_def connectWebSocket_connected connected_def disconnectedCallback_def
  run_callback_def ws_close_def set_readyState_def onclose_handler_def setTimeout_def
  onmessage_handler_def dispatchEvent_def wsUrl_def wsProtocol_def attempts_def live_def

section \<open>The claims\<close>

text \<open>
  C1: after teardown (\<^verbatim>\<open>disconnectedCallback\<close>) returns there is no further
  connection attempt and the handler is not invoked again, also when a reconnection
  timer was pending at the call. The class does not do this. Teardown calls
  \<^verbatim>\<open>close()\<close> on the socket and nothing else, and the close handler arms the
  timer for every close event, whatever caused it. With a timer pending at teardown
  (first run below: the socket closed at time 0, one attempt so far, the timer due at
  1000) the timer fires and makes the second attempt; with an open socket at teardown
  (second run) the close event that \<^verbatim>\<open>close()\<close> itself causes arms the timer, the
  second attempt follows, and a frame on the new socket is dispatched.
\<close>

theorem teardown_does_not_stop_reconnecting:
  "attempts (run scenario_parse [Mount, SockClose 0, Unmount] (fresh ''poll'' None example_page)) = 1 \<and>
   timers (run scenario_parse [Mount, SockClose 0, Unmount] (fresh ''poll'' None example_page)) = [1000] \<and>
   attempts (run scenario_parse [Mount, SockClose 0, Unmount, Tick 1000, Timeout]
      (fresh ''poll'' None example_page)) = 2 \<and>
   attempts (run scenario_parse [Mount, SockOpen 0, Unmount, SockClose 0, Tick 1000, Timeout]
      (fresh ''poll'' None example_page)) = 2 \<and>
   dispatched (run scenario_parse
      [Mount, SockOpen 0, Unmount, SockClose 0, Tick 1000, Timeout, SockOpen 1,
       SockMessage 1 ''{\"type\":\"ping\"}'']
      (fresh ''poll'' None example_page)) = [\<lparr>tag = ''poll'', detail_action = ''ping''\<rparr>]"
  by (simp add: eval_defs)

text \<open>
  C2: a frame that is not JSON does not invoke the handler, does not close the channel,
  leaves the channel able to deliver a later well-formed frame, and the decode failure
  is dropped or logged and never propagated. The last part fails: the message handler
  has no \<^verbatim>\<open>try\<close>, so the \<^verbatim>\<open>SyntaxError\<close> of \<^verbatim>\<open>JSON.parse\<close> leaves it,
  and it is the browser that reports it.
\<close>

theorem malformed_frame_throws:
  "onmessage_handler scenario_parse ''not-json''
     (run scenario_parse [Mount, SockOpen 0] (fresh ''poll'' None example_page)) = Inl SyntaxError \<and>
   reported (run scenario_parse [Mount, SockOpen 0, SockMessage 0 ''not-json'']
     (fresh ''poll'' None example_page)) = [SyntaxError]"
  by (simp add: eval_defs)

text \<open>
  C2, as the class has it: for a frame that \<^verbatim>\<open>JSON.parse\<close> rejects, delivered
  to an open socket of the element, the message handler throws \<^verbatim>\<open>SyntaxError\<close>;
  the world after the delivery is the world before it with that exception reported
  (so nothing was dispatched, no socket changed state, no timer was armed), and a
  well-formed frame delivered next is dispatched as usual.
\<close>

theorem malformed_frame_isolated:
  assumes "JSON_parse raw = None"
    and "h < length (sockets w)" and "readyState (sockets w ! h) = OPEN"
    and "onmessage (sockets w ! h) = Some ForwardMessage"
    and "JSON_parse raw' = Some data"
  shows "onmessage_handler JSON_parse raw w = Inl SyntaxError \<and>
         step JSON_parse (SockMessage h raw) w = w\<lparr>reported := reported w @ [SyntaxError]\<rparr> \<and>
         step JSON_parse (SockMessage h raw') (step JSON_parse (SockMessage h raw) w) =
           w\<lparr>dispatched := dispatched w @
                 [\<lparr>tag = triggerEvent (elem w), detail_action = data\<rparr>],
             reported := reported w @ [SyntaxError]\<rparr>"
proof -
  have 1: "onmessage_handler JSON_parse raw w = Inl SyntaxError"
    by (simp add: onmessage_handler_def assms(1))
  have 2: "step JSON_parse (SockMessage h raw) w = w\<lparr>reported := reported w @ [SyntaxError]\<rparr>"
    unfolding step_SockMessage_open [OF assms(2-4)] 1 by (simp add: run_callback_def)
  have 3: "step JSON_parse (SockMessage h raw') (w\<lparr>reported := reported w @ [SyntaxError]\<rparr>) =
      w\<lparr>dispatched := dispatched w @ [\<lparr>tag = triggerEvent (elem w), detail_action = data\<rparr>],
        reported := reported w @ [SyntaxError]\<rparr>"
    using assms(2-5) by (simp add: onmessage_handler_def dispatchEvent_def run_callback_def)
  show ?thesis unfolding 2 3 using 1 by simp
qed

theorem malformed_frame_isolated_witness:
  "scenario_parse ''not-json'' = None \<and>
   scenario_parse ''{\"type\":\"ping\"}'' = Some ''ping'' \<and>
   sockets (run scenario_parse
      [Mount, SockOpen 0, SockMessage 0 ''not-json'', SockMessage 0 ''{\"type\":\"ping\"}'']
      (fresh ''poll'' None example_page)) =
     [\<lparr>url = ''wss://example.test/__ws__'', readyState = OPEN,
       onmessage = Some ForwardMessage, onclose = Some ScheduleReconnect\<rparr>] \<and>
   dispatched (run scenario_parse
      [Mount, SockOpen 0, SockMessage 0 ''not-json'', SockMessage 0 ''{\"type\":\"ping\"}'']
      (fresh ''poll'' None example_page)) = [\<lparr>tag = ''poll'', detail_action = ''ping''\<rparr>]"
  using malformed_frame_isolated [of scenario_parse "''not-json''" 0
      "run scenario_parse [Mount, SockOpen 0] (fresh ''poll'' None example_page)"
      "''{\"type\":\"ping\"}''" "''ping''"]
  by (simp add: eval_defs)

text \<open>
  C3: for every sequence of open, close and network-drop events the element has at most
  one socket that is not closed, and a new attempt is made only after the previous socket
  has closed. Connecting the element a second time breaks this: teardown leaves the first
  socket closing, not closed, and \<^verbatim>\<open>connectedCallback\<close> makes the next attempt
  at once.
\<close>

theorem remount_two_live_sockets:
  "live (run scenario_parse [Mount, SockOpen 0, Unmount, Mount]
           (fresh ''poll'' None example_page)) = 2"
  by (simp add: fresh_def constructor_def step_Mount connected_def disconnectedCallback_def
      run_callback_def ws_close_def set_readyState_def live_def del: step.simps(1))

text \<open>
  C3, for an element that is connected to the document once: after every sequence of
  events without a second \<open>Mount\<close> (teardown, socket events, time, timers) at most
  one socket is not closed, a socket that is not closed is the one in \<^verbatim>\<open>this.ws\<close>,
  and an event that makes a connection attempt finds every socket closed.
\<close>

theorem single_mount_one_live_socket:
  assumes "Mount \<notin> set evs"
  shows "(let w = run P evs (step P Mount (fresh te ac loc)) in
           live w \<le> 1 \<and>
           (\<forall>i < length (sockets w).
              readyState (sockets w ! i) \<noteq> CLOSED \<longrightarrow> ws (elem w) = Some i) \<and>
           (\<forall>ev. ev \<noteq> Mount \<and> attempts (step P ev w) \<noteq> attempts w \<longrightarrow> live w = 0))"
proof -
  define w where "w = run P evs (step P Mount (fresh te ac loc))"
  have inv: "one_channel w"
    unfolding w_def using assms one_channel_connected_fresh by (rule one_channel_run)
  then have count: "live w + length (timers w) = 1"
    by (simp add: one_channel_def)
  then have "live w \<le> 1" by linarith
  moreover have "\<forall>i < length (sockets w).
      readyState (sockets w ! i) \<noteq> CLOSED \<longrightarrow> ws (elem w) = Some i"
    using inv by (simp add: one_channel_def)
  moreover have "\<forall>ev. ev \<noteq> Mount \<and> attempts (step P ev w) \<noteq> attempts w \<longrightarrow> live w = 0"
  proof (intro allI impI)
    fix ev
    assume "ev \<noteq> Mount \<and> attempts (step P ev w) \<noteq> attempts w"
    then have "timers w \<noteq> []" using inv attempts_step by blast
    then have "0 < length (timers w)" by simp
    with count show "live w = 0" by linarith
  qed
  ultimately show ?thesis
    unfolding w_def Let_def by blast
qed

theorem single_mount_one_live_socket_witness:
  "Mount \<notin> set [SockOpen 0, Unmount, SockClose 0, Tick 1000, Timeout] \<and>
   live (run scenario_parse [SockOpen 0, Unmount, SockClose 0, Tick 1000, Timeout]
     (step scenario_parse Mount (fresh ''poll'' None example_page))) \<le> 1"
proof -
  have h: "Mount \<notin> set [SockOpen 0, Unmount, SockClose 0, Tick 1000, Timeout]" by simp
  from single_mount_one_live_socket [OF h, of scenario_parse "''poll''" None example_page]
  show ?thesis using h unfolding Let_def by blast
qed




text \<open>
  C5: as long as teardown has not been called, every close event leads to another
  attempt; there is no retry limit and no circuit breaker, and an endpoint that cannot be
  reached is retried for ever at the fixed interval. After every sequence of events
  without \<open>Mount\<close> and \<open>Unmount\<close> that follows the mount of a fresh element
  (frames dispatched or not, any number of earlier failures), the close of the socket
  that is connecting or open, followed \<open>d\<close> ms later by the timer, makes one more
  attempt exactly when \<open>d\<close> is at least 1000, and the element is then connecting
  again on the new socket, so the same holds for the next close. In particular, after
  \<open>n\<close> failures in a row, each followed by a second of waiting, the element is in
  its attempt number \<open>n + 1\<close> at time \<open>1000 * n\<close>, for every \<open>n\<close>.
\<close>

theorem every_close_reconnects_without_bound:
  assumes "Mount \<notin> set evs" and "Unmount \<notin> set evs"
    and "w = run P evs (step P Mount (fresh te ac loc))"
    and "h < length (sockets w)"
    and "readyState (sockets w ! h) = CONNECTING \<or> readyState (sockets w ! h) = OPEN"
  shows "attempts (run P (evs @ [SockClose h, Tick d, Timeout]) (step P Mount (fresh te ac loc))) =
           (if d < 1000 then attempts w else Suc (attempts w)) \<and>
         (1000 \<le> d \<longrightarrow>
            ws (elem (run P [SockClose h, Tick d, Timeout] w)) = Some (attempts w) \<and>
            readyState (sockets (run P [SockClose h, Tick d, Timeout] w) ! attempts w) =
              CONNECTING) \<and>
         attempts (run P (retries n) (step P Mount (fresh te ac loc))) = Suc n \<and>
         now (run P (retries n) (step P Mount (fresh te ac loc))) = 1000 * n"
proof -
  have inv: "one_channel w"
    unfolding assms(3) using assms(1) one_channel_connected_fresh by (rule one_channel_run)
  have st: "readyState (sockets w ! h) \<noteq> CLOSED"
    using assms(5) by auto
  have none: "timers w = []" and cb: "onclose (sockets w ! h) = Some ScheduleReconnect"
    using live_socket_no_timer [OF inv assms(4) st] by simp_all
  have "attempts (run P [SockClose h, Tick d, Timeout] w) =
      (if d < 1000 then attempts w else Suc (attempts w))"
    using assms(4) st cb none by (rule close_tick_timeout_attempts)
  then have 1: "attempts (run P (evs @ [SockClose h, Tick d, Timeout])
        (step P Mount (fresh te ac loc))) =
      (if d < 1000 then attempts w else Suc (attempts w))"
    unfolding run_snoc3 assms(3) .
  have 2: "ws (elem (run P [SockClose h, Tick d, Timeout] w)) = Some (attempts w) \<and>
      readyState (sockets (run P [SockClose h, Tick d, Timeout] w) ! attempts w) = CONNECTING"
    if "1000 \<le> d"
    unfolding close_tick_timeout_late [OF assms(4) st cb none that]
    by (simp add: connected_def set_readyState_def attempts_def nth_append)
  have 3: "attempts (run P (retries n) (step P Mount (fresh te ac loc))) = Suc n"
    and 4: "now (run P (retries n) (step P Mount (fresh te ac loc))) = 1000 * n"
    unfolding retries_run by (simp_all add: attempts_def)
  from 1 2 3 4 show ?thesis by blast
qed

theorem every_close_reconnects_without_bound_witness:
  "Mount \<notin> set [SockOpen 0, SockMessage 0 ''{\"type\":\"ping\"}''] \<and>
   Unmount \<notin> set [SockOpen 0, SockMessage 0 ''{\"type\":\"ping\"}''] \<and>
   dispatched (run scenario_parse [Mount, SockOpen 0, SockMessage 0 ''{\"type\":\"ping\"}'']
     (fresh ''poll'' None example_page)) = [\<lparr>tag = ''poll'', detail_action = ''ping''\<rparr>] \<and>
   attempts (run scenario_parse [Mount, SockOpen 0, SockMessage 0 ''{\"type\":\"ping\"}'']
     (fresh ''poll'' None example_page)) = 1 \<and>
   attempts (run scenario_parse
     ([SockOpen 0, SockMessage 0 ''{\"type\":\"ping\"}''] @ [SockClose 0, Tick 1000, Timeout])
     (step scenario_parse Mount (fresh ''poll'' None example_page))) = 2"
  using every_close_reconnects_without_bound
    [of "[SockOpen 0, SockMessage 0 ''{\"type\":\"ping\"}'']"
      "run scenario_parse [SockOpen 0, SockMessage 0 ''{\"type\":\"ping\"}'']
         (step scenario_parse Mount (fresh ''poll'' None example_page))"
      scenario_parse "''poll''" None example_page 0 1000 0]
  by (simp add: eval_defs)

text \<open>
  C6: every attempt connects to \<^verbatim>\<open>{ws|wss}://<host>/__ws__\<close>, \<^verbatim>\<open>wss\<close> for an
  \<^verbatim>\<open>https:\<close> page and \<^verbatim>\<open>ws\<close> otherwise, computed from the page location at
  the time of the attempt: an attempt made after the location has changed uses the new
  location, and the socket of the earlier attempt keeps its URL.
\<close>

theorem endpoint_mirrors_page_scheme:
  "connectWebSocket w = Inr (connected w) \<and>
   ws (elem (connected w)) = Some (length (sockets w)) \<and>
   url (sockets (connected w) ! length (sockets w)) = spec_endpoint (window_location w) \<and>
   connectWebSocket ((connected w)\<lparr>window_location := loc'\<rparr>) =
     Inr (connected ((connected w)\<lparr>window_location := loc'\<rparr>)) \<and>
   url (sockets (connected ((connected w)\<lparr>window_location := loc'\<rparr>)) !
          Suc (length (sockets w))) = spec_endpoint loc' \<and>
   url (sockets (connected ((connected w)\<lparr>window_location := loc'\<rparr>)) !
          length (sockets w)) = spec_endpoint (window_location w)"
  by (simp add: connectWebSocket_connected connected_def wsUrl_spec_endpoint nth_append)

text \<open>
  C7: a frame that decodes, delivered to an open socket of the element, adds exactly one
  event to those dispatched: its tag is \<^verbatim>\<open>triggerEvent\<close>, its detail carries the
  decoded payload as \<^verbatim>\<open>action\<close>; nothing else in the world changes.
\<close>

theorem wellformed_frame_one_notification:
  assumes "JSON_parse raw = Some data"
    and "h < length (sockets w)" and "readyState (sockets w ! h) = OPEN"
    and "onmessage (sockets w ! h) = Some ForwardMessage"
  shows "step JSON_parse (SockMessage h raw) w =
           w\<lparr>dispatched := dispatched w @
               [\<lparr>tag = triggerEvent (elem w), detail_action = data\<rparr>]\<rparr>"
  unfolding step_SockMessage_open [OF assms(2-4)]
  by (simp add: onmessage_handler_def assms(1) dispatchEvent_def run_callback_def)

theorem wellformed_frame_one_notification_witness:
  "scenario_parse ''{\"type\":\"ping\"}'' = Some ''ping'' \<and>
   dispatched (run scenario_parse [Mount, SockOpen 0, SockMessage 0 ''{\"type\":\"ping\"}'']
     (fresh ''poll'' None example_page)) = [\<lparr>tag = ''poll'', detail_action = ''ping''\<rparr>]"
  using wellformed_frame_one_notification [of scenario_parse "''{\"type\":\"ping\"}''" "''ping''" 0
      "run scenario_parse [Mount, SockOpen 0] (fresh ''poll'' None example_page)"]
  by (simp add: eval_defs)

text \<open>
  C8: \<^verbatim>\<open>connectWebSocket\<close> and \<^verbatim>\<open>connectedCallback\<close> return normally in every
  world (the scheme they build is one the constructor accepts), nothing is reported, and
  the new socket is connecting. A connection that fails shows as the socket's close
  event, which is handled as the close of an open socket is: the timer is armed.
\<close>

theorem open_never_throws:
  "connectWebSocket w = Inr (connected w) \<and>
   connectedCallback w = Inr (connected w) \<and>
   step P Mount w = connected w \<and>
   reported (connected w) = reported w \<and>
   readyState (sockets (connected w) ! length (sockets w)) = CONNECTING \<and>
   timers (step P (SockClose (length (sockets w))) (connected w)) =
     timers w @ [now w + 1000] \<and>
   reported (step P (SockClose (length (sockets w))) (connected w)) = reported w \<and>
   step P (SockClose (length (sockets w))) (connected w) =
     step P (SockClose (length (sockets w)))
       (step P (SockOpen (length (sockets w))) (connected w))"
  by (simp add: connectWebSocket_connected connectedCallback_def run_callback_def
      connected_def set_readyState_def onclose_handler_def setTimeout_def)

text \<open>
  C9: the constructor leaves \<^verbatim>\<open>ws\<close> at \<^verbatim>\<open>null\<close>, and teardown with
  \<^verbatim>\<open>ws\<close> at \<^verbatim>\<open>null\<close> returns normally and changes nothing.
\<close>

theorem teardown_before_any_attempt:
  "ws (constructor te ac) = None \<and>
   (ws (elem w) = None \<longrightarrow> disconnectedCallback w = Inr w \<and> step P Unmount w = w)"
  by (simp add: constructor_def disconnectedCallback_def run_callback_def)

theorem teardown_before_any_attempt_witness:
  "ws (elem (fresh ''poll'' None example_page :: string world)) = None \<and>
   disconnectedCallback (fresh ''poll'' None example_page :: string world) =
     Inr (fresh ''poll'' None example_page) \<and>
   step scenario_parse Unmount (fresh ''poll'' None example_page) = fresh ''poll'' None example_page"
proof -
  have h: "ws (elem (fresh ''poll'' None example_page :: string world)) = None"
    by (simp add: fresh_def constructor_def)
  with teardown_before_any_attempt
    [of "''poll''" None "fresh ''poll'' None example_page :: string world" scenario_parse]
  show ?thesis by blast
qed

text \<open>
  C10: a connection attempt changes no field of the element but \<^verbatim>\<open>ws\<close>, and
  no event (mount, teardown, socket open, message, close, time, timer) changes
  \<^verbatim>\<open>triggerEvent\<close> or \<^verbatim>\<open>action\<close>.
\<close>

theorem properties_left_unchanged:
  "connectWebSocket w = Inr (connected w) \<and>
   elem (connected w) = (elem w)\<lparr>ws := Some (length (sockets w))\<rparr> \<and>
   triggerEvent (elem (step P ev w)) = triggerEvent (elem w) \<and>
   action (elem (step P ev w)) = action (elem w)"
proof -
  have "triggerEvent (elem (step P ev w)) = triggerEvent (elem w) \<and>
      action (elem (step P ev w)) = action (elem w)"
  proof (cases ev)
    case Mount
    then show ?thesis by (simp add: step_Mount connected_def del: step.simps)
  next
    case Unmount
    then show ?thesis
      by (simp add: disconnectedCallback_def run_callback_def split: option.splits)
  next
    case (SockOpen h)
    then show ?thesis by (simp add: set_readyState_def)
  next
    case (SockMessage h d)
    then show ?thesis
      by (simp add: invoke_keeps_elem split: option.splits)
  next
    case (SockClose h)
    then show ?thesis
      by (simp add: invoke_keeps_elem Let_def set_readyState_def split: option.splits)
  next
    case (Tick d)
    then show ?thesis by simp
  next
    case Timeout
    then show ?thesis
      by (simp add: connectWebSocket_connected run_callback_def connected_def
          split: list.splits)
  qed
  then show ?thesis
    by (simp add: connectWebSocket_connected connected_def)
qed

end
